theory Spec2Isabelle
  imports Main "HOL-Library.Sublist"
begin

section \<open>Python values\<close>

text \<open>
  A Python \<^verbatim>\<open>str\<close> is a sequence of Unicode code points. Literals of the source are
  written as Isabelle strings and converted with \<open>lit\<close>.
\<close>

type_synonym pystr = "nat list"

definition lit :: "string \<Rightarrow> pystr" where
  "lit s = map of_char s"

text \<open>
  Instances of \<^verbatim>\<open>Exception\<close>: the class name and the text \<^verbatim>\<open>str(e)\<close>.
  A computation that can raise returns \<open>pyexc + 'a\<close>, with \<open>Inl\<close> the raised exception.
\<close>

datatype pyexc = PyExc (exc_class: string) (exc_str: pystr)

text \<open>
  The values a message's \<^verbatim>\<open>content\<close> can hold: \<^verbatim>\<open>None\<close>, a string, a list,
  a dict with string keys (an association list in insertion order).
\<close>

datatype pyval =
    PNone
  | PStr pystr
  | PList "pyval list"
  | PDict "(pystr \<times> pyval) list"

text \<open>\<^verbatim>\<open>try: body  except Exception as e: handler(e)\<close>\<close>

definition try_except :: "pyexc + 'a \<Rightarrow> (pyexc \<Rightarrow> pyexc + 'a) \<Rightarrow> pyexc + 'a" where
  "try_except body handler = (case body of Inl e \<Rightarrow> handler e | Inr v \<Rightarrow> Inr v)"

text \<open>\<^verbatim>\<open>xs[-1]\<close> raises IndexError on the empty list.\<close>

definition py_last :: "'a list \<Rightarrow> pyexc + 'a" where
  "py_last xs =
     (if xs = [] then Inl (PyExc ''IndexError'' (lit ''list index out of range''))
      else Inr (last xs))"

text \<open>\<^verbatim>\<open>sep.join(parts)\<close>\<close>

fun py_join :: "pystr \<Rightarrow> pystr list \<Rightarrow> pystr" where
  "py_join sep [] = []"
| "py_join sep [x] = x"
| "py_join sep (x # y # ys) = x @ sep @ py_join sep (y # ys)"

text \<open>
  \<^verbatim>\<open>str.isspace\<close> on one code point (CPython's whitespace table), and
  \<^verbatim>\<open>str.strip()\<close> with no argument.
\<close>

definition py_isspace :: "nat \<Rightarrow> bool" where
  "py_isspace c \<longleftrightarrow>
     (9 \<le> c \<and> c \<le> 13) \<or> (28 \<le> c \<and> c \<le> 32) \<or> c = 133 \<or> c = 160 \<or> c = 5760 \<or>
     (8192 \<le> c \<and> c \<le> 8202) \<or> c = 8232 \<or> c = 8233 \<or> c = 8239 \<or> c = 8287 \<or> c = 12288"

definition py_strip :: "pystr \<Rightarrow> pystr" where
  "py_strip s = rev (dropWhile py_isspace (rev (dropWhile py_isspace s)))"

text \<open>
  \<^verbatim>\<open>str(xs)\<close> of a list: the \<^verbatim>\<open>repr\<close> of every element, separated by a comma and
  a space, in square brackets. The \<^verbatim>\<open>repr\<close> of an element is the interpreter's and
  is a parameter.
\<close>

definition py_str_list :: "(pyval \<Rightarrow> pystr) \<Rightarrow> pyval list \<Rightarrow> pystr" where
  "py_str_list repr xs = lit ''['' @ py_join (lit '', '') (map repr xs) @ lit '']''"

section \<open>Tools (bot.py, section 3)\<close>

record document =
  page_content :: pystr

type_synonym retriever = "pystr \<Rightarrow> pyexc + document list"

text \<open>
  \<^verbatim>\<open>check_my_memory\<close>: the body of its \<^verbatim>\<open>try\<close>, then the tool. The vector store
  is external: \<open>as_retriever\<close> is the outcome of
  \<^verbatim>\<open>vectorstore.as_retriever(search_kwargs={"k": 3})\<close>, a retriever or an exception,
  and the retriever's \<^verbatim>\<open>invoke\<close> returns documents or raises.
\<close>

definition memory_body :: "pyexc + retriever \<Rightarrow> pystr \<Rightarrow> pyexc + pystr" where
  "memory_body as_retriever query =
     (case as_retriever of
        Inl e \<Rightarrow> Inl e
      | Inr retriever \<Rightarrow>
          (case retriever query of
             Inl e \<Rightarrow> Inl e
           | Inr docs \<Rightarrow>
               if docs = [] then Inr (lit ''No specific personal memory found.'')
               else Inr (py_join [10, 10] (map page_content docs))))"

definition check_my_memory :: "pyexc + retriever \<Rightarrow> pystr \<Rightarrow> pyexc + pystr" where
  "check_my_memory as_retriever query =
     try_except (memory_body as_retriever query)
       (\<lambda>e. Inr (lit ''Error reading memory: '' @ exc_str e))"

record repo =
  name :: pystr
  html_url :: pystr
  description :: "pystr option"

text \<open>
  The body of the \<^verbatim>\<open>for repo in repos\<close> loop: one line per repository, appended
  to \<open>info\<close>. The repositories come from a lazily fetched list, so each element is
  either a repository or the exception its fetch raises.
\<close>

definition repo_line :: "repo \<Rightarrow> pystr" where
  "repo_line r =
     (let desc = (case description r of
                    None \<Rightarrow> lit ''No description''
                  | Some d \<Rightarrow> if d = [] then lit ''No description'' else d)
      in lit ''Repo: '' @ name r @ lit '' | URL: '' @ html_url r @ lit '' | Desc: '' @ desc)"

fun collect_info :: "(pyexc + repo) list \<Rightarrow> pystr list \<Rightarrow> pyexc + pystr list" where
  "collect_info [] info = Inr info"
| "collect_info (Inl e # repos) info = Inl e"
| "collect_info (Inr r # repos) info = collect_info repos (info @ [repo_line r])"

text \<open>
  \<^verbatim>\<open>check_github_activity\<close>: the body of its \<^verbatim>\<open>try\<close>, then the tool.
  \<open>get_repos\<close> is the outcome of
  \<^verbatim>\<open>Github(GITHUB_TOKEN).get_user().get_repos(sort="updated", direction="desc")\<close>:
  an exception, or the lazily fetched list, of which \<^verbatim>\<open>[:3]\<close> keeps the first three.
\<close>

definition github_body :: "pyexc + (pyexc + repo) list \<Rightarrow> pyexc + pystr" where
  "github_body get_repos =
     (case get_repos of
        Inl e \<Rightarrow> Inl e
      | Inr all_repos \<Rightarrow>
          (case collect_info (take 3 all_repos) [] of
             Inl e \<Rightarrow> Inl e
           | Inr info \<Rightarrow>
               if info = [] then Inr (lit ''No recent public repositories found.'')
               else Inr (py_join [10] info)))"

definition check_github_activity :: "pyexc + (pyexc + repo) list \<Rightarrow> pystr \<Rightarrow> pyexc + pystr" where
  "check_github_activity get_repos query =
     try_except (github_body get_repos)
       (\<lambda>e. Inr (lit ''Error connecting to GitHub: '' @ exc_str e))"

section \<open>The agent graph (bot.py, section 4)\<close>

record tool_call =
  tool_name :: pystr
  args :: pyval
  call_id :: pystr

datatype message =
    SystemMessage pyval
  | HumanMessage pyval
  | AIMessage pyval "tool_call list"
  | ToolMessage pyval pystr

fun content :: "message \<Rightarrow> pyval" where
  "content (SystemMessage c) = c"
| "content (HumanMessage c) = c"
| "content (AIMessage c tcs) = c"
| "content (ToolMessage c i) = c"

text \<open>Only an \<^verbatim>\<open>AIMessage\<close> has the attribute \<^verbatim>\<open>tool_calls\<close>.\<close>

fun tool_calls :: "message \<Rightarrow> pyexc + tool_call list" where
  "tool_calls (AIMessage c tcs) = Inr tcs"
| "tool_calls m = Inl (PyExc ''AttributeError'' (lit ''tool_calls''))"

record AgentState =
  messages :: "message list"

text \<open>
  The reducer of the \<^verbatim>\<open>messages\<close> channel, on logs written without the identifiers
  of their messages: it appends the update. The library's reducer merges by identifier;
  it is \<open>add_messages_by_id\<close> below, and the two give the same logs when the
  identifiers of a turn are distinct.
\<close>

definition add_messages :: "message list \<Rightarrow> message list \<Rightarrow> message list" where
  "add_messages left right = left @ right"

definition apply_update :: "AgentState \<Rightarrow> message list \<Rightarrow> AgentState" where
  "apply_update state upd = state\<lparr>messages := add_messages (messages state) upd\<rparr>"

text \<open>
  The language model with the tools bound is external: given the message log it raises
  or returns an assistant message, its content and its tool calls. The node of
  \<^verbatim>\<open>ToolNode(tools)\<close> is the library's: given the log it raises or returns the tool
  messages to append.
\<close>

type_synonym llm = "message list \<Rightarrow> pyexc + (pyval \<times> tool_call list)"
type_synonym tool_node = "message list \<Rightarrow> pyexc + message list"

definition chatbot_node :: "llm \<Rightarrow> AgentState \<Rightarrow> pyexc + message list" where
  "chatbot_node llm_with_tools state =
     (case llm_with_tools (messages state) of
        Inl e \<Rightarrow> Inl e
      | Inr (c, tcs) \<Rightarrow> Inr [AIMessage c tcs])"

datatype node = Agent | Tools

datatype edge_target = Goto node | END

definition should_continue :: "AgentState \<Rightarrow> pyexc + edge_target" where
  "should_continue state =
     (case py_last (messages state) of
        Inl e \<Rightarrow> Inl e
      | Inr last_message \<Rightarrow>
          (case tool_calls last_message of
             Inl e \<Rightarrow> Inl e
           | Inr tcs \<Rightarrow> if tcs \<noteq> [] then Inr (Goto Tools) else Inr END))"

text \<open>
  The compiled graph: entry point \<open>Agent\<close>, the conditional edge \<open>should_continue\<close>
  after \<open>Agent\<close>, the edge from \<open>Tools\<close> back to \<open>Agent\<close>. The engine that runs the
  graph is the library's. It runs one node per step, and a step of the tool node
  counts like a step of the agent node; \<^verbatim>\<open>recursion_limit\<close> is the number of steps a
  run may take, and a run that has taken them all without reaching \<open>END\<close> raises
  GraphRecursionError. The third argument of \<open>run_graph\<close> is the number of steps left,
  the fourth the node to run next. The second component of the result counts the
  invocations of the language model, the failed ones included.
\<close>

definition GraphRecursionError :: pyexc where
  "GraphRecursionError =
     PyExc ''GraphRecursionError'' (lit ''Recursion limit reached without hitting a stop condition.'')"

fun run_graph :: "llm \<Rightarrow> tool_node \<Rightarrow> nat \<Rightarrow> node \<Rightarrow> AgentState \<Rightarrow> (pyexc + AgentState) \<times> nat" where
  "run_graph llm_with_tools tool_node 0 nd state = (Inl GraphRecursionError, 0)"
| "run_graph llm_with_tools tool_node (Suc n) Agent state =
     (case chatbot_node llm_with_tools state of
        Inl e \<Rightarrow> (Inl e, 1)
      | Inr upd \<Rightarrow>
          (let state' = apply_update state upd in
           case should_continue state' of
             Inl e \<Rightarrow> (Inl e, 1)
           | Inr END \<Rightarrow> (Inr state', 1)
           | Inr (Goto nd) \<Rightarrow>
               (case run_graph llm_with_tools tool_node n nd state' of
                  (res, k) \<Rightarrow> (res, Suc k))))"
| "run_graph llm_with_tools tool_node (Suc n) Tools state =
     (case tool_node (messages state) of
        Inl e \<Rightarrow> (Inl e, 0)
      | Inr upd \<Rightarrow> run_graph llm_with_tools tool_node n Agent (apply_update state upd))"

definition app_graph_invoke ::
  "llm \<Rightarrow> tool_node \<Rightarrow> message list \<Rightarrow> nat \<Rightarrow> (pyexc + AgentState) \<times> nat" where
  "app_graph_invoke llm_with_tools tool_node input_messages recursion_limit =
     run_graph llm_with_tools tool_node recursion_limit Agent
       (apply_update \<lparr>messages = []\<rparr> input_messages)"

section \<open>The reducer on identified messages\<close>

text \<open>
  Every message of the library carries an identifier: the run identifier the model
  wrapper gives a response, or the uuid4 the reducer assigns to a message that has none.
  The reducer \<^verbatim>\<open>add_messages\<close> merges an update into the log by identifier: a message
  of the update whose identifier is already in the log replaces the logged message at
  the last index that holds the identifier, any other message is appended. A
  \<^verbatim>\<open>RemoveMessage\<close> would delete a logged message; neither node of this graph returns
  one (the agent node returns the model's assistant message, the tool node tool
  messages), so an update holds messages only.
\<close>

type_synonym identified = "pystr \<times> message"

fun replace_first :: "pystr \<Rightarrow> identified \<Rightarrow> identified list \<Rightarrow> identified list" where
  "replace_first i m [] = []"
| "replace_first i m (x # xs) = (if fst x = i then m # xs else x # replace_first i m xs)"

definition merge_message :: "identified list \<Rightarrow> identified \<Rightarrow> identified list" where
  "merge_message merged m =
     (if fst m \<in> set (map fst merged) then rev (replace_first (fst m) m (rev merged))
      else merged @ [m])"

definition add_messages_by_id :: "identified list \<Rightarrow> identified list \<Rightarrow> identified list" where
  "add_messages_by_id left right = foldl merge_message left right"

text \<open>
  The identifiers are the library's and a parameter: \<open>ident k\<close> is the identifier of the
  \<open>k\<close>-th message created in the turn. \<open>assign_ids ident created ms\<close> gives the
  messages \<open>ms\<close> their identifiers when \<open>created\<close> messages exist already.
\<close>

definition assign_ids :: "(nat \<Rightarrow> pystr) \<Rightarrow> nat \<Rightarrow> message list \<Rightarrow> identified list" where
  "assign_ids ident created ms = zip (map ident [created..<created + length ms]) ms"

text \<open>
  The graph of \<open>run_graph\<close>, on the log with its identifiers and with the library's
  reducer. The last argument counts the messages created so far.
\<close>

fun run_graph_by_id ::
  "llm \<Rightarrow> tool_node \<Rightarrow> (nat \<Rightarrow> pystr) \<Rightarrow> nat \<Rightarrow> node \<Rightarrow> identified list \<Rightarrow> nat \<Rightarrow>
   pyexc + identified list" where
  "run_graph_by_id llm_with_tools tool_node ident 0 nd log created = Inl GraphRecursionError"
| "run_graph_by_id llm_with_tools tool_node ident (Suc n) Agent log created =
     (case chatbot_node llm_with_tools \<lparr>messages = map snd log\<rparr> of
        Inl e \<Rightarrow> Inl e
      | Inr upd \<Rightarrow>
          (let log' = add_messages_by_id log (assign_ids ident created upd) in
           case should_continue \<lparr>messages = map snd log'\<rparr> of
             Inl e \<Rightarrow> Inl e
           | Inr END \<Rightarrow> Inr log'
           | Inr (Goto nd) \<Rightarrow>
               run_graph_by_id llm_with_tools tool_node ident n nd log' (created + length upd)))"
| "run_graph_by_id llm_with_tools tool_node ident (Suc n) Tools log created =
     (case tool_node (map snd log) of
        Inl e \<Rightarrow> Inl e
      | Inr upd \<Rightarrow>
          run_graph_by_id llm_with_tools tool_node ident n Agent
            (add_messages_by_id log (assign_ids ident created upd)) (created + length upd))"

section \<open>The Telegram handler (bot.py, section 5)\<close>

definition apology :: pystr where
  "apology = lit ''Sorry, I encountered an internal error. Please try again.''"

definition no_text_fallback :: pystr where
  "no_text_fallback = lit ''I'm thinking, but I couldn't formulate a text response.''"

text \<open>The text extraction of lines 215 to 227, on \<^verbatim>\<open>final_message.content\<close>.\<close>

definition extract_reply :: "(pyval \<Rightarrow> pystr) \<Rightarrow> pyval \<Rightarrow> pyval" where
  "extract_reply repr c =
     (case c of
        PList (x # xs) \<Rightarrow>
          (case x of
             PDict d \<Rightarrow>
               (case map_of d (lit ''text'') of
                  Some t \<Rightarrow> t
                | None \<Rightarrow> PStr (py_str_list repr (x # xs)))
           | _ \<Rightarrow> PStr (py_str_list repr (x # xs)))
      | PStr s \<Rightarrow> PStr s
      | _ \<Rightarrow> PStr no_text_fallback)"

text \<open>Lines 213 to 227: the last message of the result and its extracted text.\<close>

definition reply_from_result :: "(pyval \<Rightarrow> pystr) \<Rightarrow> AgentState \<Rightarrow> pyexc + pyval" where
  "reply_from_result repr result =
     (case py_last (messages result) of
        Inl e \<Rightarrow> Inl e
      | Inr final_message \<Rightarrow> Inr (extract_reply repr (content final_message)))"

text \<open>
  Lines 205 to 231: the initial messages, the \<^verbatim>\<open>try\<close> block around the graph
  invocation with \<^verbatim>\<open>recursion_limit\<close> 10, and its handler. The result is
  \<^verbatim>\<open>bot_reply\<close>, or an exception that leaves the statement, and the number of
  invocations of the language model.
\<close>

definition recursion_limit :: nat where
  "recursion_limit = 10"

definition initial_messages :: "pystr \<Rightarrow> pystr \<Rightarrow> message list" where
  "initial_messages system_message user_text =
     [SystemMessage (PStr system_message), HumanMessage (PStr user_text)]"

definition bot_reply ::
  "llm \<Rightarrow> tool_node \<Rightarrow> (pyval \<Rightarrow> pystr) \<Rightarrow> message list \<Rightarrow> (pyexc + pyval) \<times> nat" where
  "bot_reply llm_with_tools tool_node repr msgs =
     (case app_graph_invoke llm_with_tools tool_node msgs recursion_limit of
        (res, k) \<Rightarrow>
          (try_except
             (case res of
                Inl e \<Rightarrow> Inl e
              | Inr result \<Rightarrow> reply_from_result repr result)
             (\<lambda>e. Inr (PStr apology)),
           k))"

text \<open>
  \<^verbatim>\<open>handle_message\<close>: the calls made on the Telegram bot, in order, the exception
  that leaves the handler's \<^verbatim>\<open>try\<close> statement if any, and the number of
  invocations of the language model. \<open>user_text\<close> is \<^verbatim>\<open>update.message.text\<close>,
  which may be \<^verbatim>\<open>None\<close>. The system prompt (the literal of lines 181 to 203) is
  the parameter \<open>system_message\<close>. The calls on the bot are recorded in order; what
  Telegram does with them is not part of the handler.
\<close>

datatype bot_call = send_message pyval | send_chat_action pystr

record handled =
  bot_calls :: "bot_call list"
  escaped :: "pyexc option"
  model_invocations :: nat

definition handle_message ::
  "pystr \<Rightarrow> llm \<Rightarrow> tool_node \<Rightarrow> (pyval \<Rightarrow> pystr) \<Rightarrow> pystr option \<Rightarrow> handled" where
  "handle_message system_message llm_with_tools tool_node repr user_text =
     (case user_text of
        None \<Rightarrow>
          \<lparr>bot_calls = [send_message (PStr (lit ''Please send a valid text message.''))],
           escaped = None, model_invocations = 0\<rparr>
      | Some t \<Rightarrow>
          if t = [] \<or> py_strip t = [] then
            \<lparr>bot_calls = [send_message (PStr (lit ''Please send a valid text message.''))],
             escaped = None, model_invocations = 0\<rparr>
          else
            (case bot_reply llm_with_tools tool_node repr (initial_messages system_message t) of
               (Inl e, k) \<Rightarrow>
                 \<lparr>bot_calls = [send_chat_action (lit ''typing'')],
                  escaped = Some e, model_invocations = k\<rparr>
             | (Inr reply, k) \<Rightarrow>
                 \<lparr>bot_calls = [send_chat_action (lit ''typing''), send_message reply],
                  escaped = None, model_invocations = k\<rparr>))"

section \<open>Stand-ins for the external services\<close>

text \<open>
  The language model, the tool node and the interpreter's \<^verbatim>\<open>repr\<close> are parameters
  of the model. The concrete instances below are used where a property is evaluated on
  an explicit run.

  \<open>repr_plain\<close> is Python's \<^verbatim>\<open>repr\<close> on values whose strings consist of printable
  characters other than the quote and the backslash.
\<close>

fun repr_plain :: "pyval \<Rightarrow> pystr" where
  "repr_plain PNone = lit ''None''"
| "repr_plain (PStr s) = [39] @ s @ [39]"
| "repr_plain (PList xs) = lit ''['' @ py_join (lit '', '') (map repr_plain xs) @ lit '']''"
| "repr_plain (PDict kvs) =
     lit ''{'' @ py_join (lit '', '') (map (\<lambda>(k, v). [39] @ k @ [39] @ lit '': '' @ repr_plain v) kvs) @ lit ''}''"

text \<open>A model that answers at once with the content \<open>c\<close> and requests no tool.\<close>

definition answering_llm :: "pyval \<Rightarrow> llm" where
  "answering_llm c msgs = Inr (c, [])"

text \<open>A model that requests the memory tool on every invocation.\<close>

definition memory_call :: tool_call where
  "memory_call =
     \<lparr>tool_name = lit ''check_my_memory'',
      args = PDict [(lit ''query'', PStr (lit ''resume''))],
      call_id = lit ''call_1''\<rparr>"

definition tool_requesting_llm :: llm where
  "tool_requesting_llm msgs = Inr (PStr [], [memory_call])"

text \<open>A model whose invocation raises.\<close>

definition quota_error :: pyexc where
  "quota_error = PyExc ''ResourceExhausted'' (lit ''quota exceeded'')"

definition failing_llm :: llm where
  "failing_llm msgs = Inl quota_error"

text \<open>A tool node that answers the call \<open>call_1\<close> with the memory tool's text.\<close>

definition answering_tool_node :: tool_node where
  "answering_tool_node msgs =
     Inr [ToolMessage (PStr (lit ''No specific personal memory found.'')) (lit ''call_1'')]"

text \<open>
  A model every response of which carries tool calls, and a tool node that returns
  on every log.
\<close>

definition always_requests_tools :: "llm \<Rightarrow> bool" where
  "always_requests_tools l \<longleftrightarrow> (\<forall>msgs. \<exists>c tcs. l msgs = Inr (c, tcs) \<and> tcs \<noteq> [])"

definition never_raises :: "tool_node \<Rightarrow> bool" where
  "never_raises tn \<longleftrightarrow> (\<forall>msgs. \<exists>upd. tn msgs = Inr upd)"

text \<open>A short system prompt and the initial log of the turn on the user text \<^verbatim>\<open>hello\<close>.\<close>

definition short_prompt :: pystr where
  "short_prompt = lit ''You are the AI Digital Twin of Pooya Nasiri.''"

definition greeting_log :: "message list" where
  "greeting_log = initial_messages short_prompt (lit ''hello'')"

text \<open>A model that answers on the logs of the greeting turn and raises on every other log.\<close>

definition greeting_only_llm :: llm where
  "greeting_only_llm msgs =
     (if prefix greeting_log msgs then Inr (PStr (lit ''hi there''), [])
      else Inl (PyExc ''ValueError'' (lit ''unknown conversation'')))"

text \<open>
  Backends of the tools: a retriever whose \<^verbatim>\<open>invoke\<close> raises, a retriever that
  finds no document, and a repository list whose second fetch raises.
\<close>

definition timeout_error :: pyexc where
  "timeout_error = PyExc ''TimeoutError'' (lit ''timed out'')"

definition failing_retriever :: "pyexc + retriever" where
  "failing_retriever = Inr (\<lambda>query. Inl timeout_error)"

definition empty_retriever :: "pyexc + retriever" where
  "empty_retriever = Inr (\<lambda>query. Inr [])"

definition some_repo :: repo where
  "some_repo =
     \<lparr>name = lit ''PooyaBot'', html_url = lit ''https://github.com/PooyaNasiri/PooyaBot'',
      description = None\<rparr>"

definition failing_github :: "pyexc + (pyexc + repo) list" where
  "failing_github = Inr [Inr some_repo, Inl timeout_error]"

text \<open>Content segments as the model returns them: a thinking segment and a text segment.\<close>

definition thinking_segment :: pyval where
  "thinking_segment =
     PDict [(lit ''type'', PStr (lit ''thinking'')), (lit ''thinking'', PStr (lit ''Let me see''))]"

definition text_segment :: "pystr \<Rightarrow> pyval" where
  "text_segment s = PDict [(lit ''type'', PStr (lit ''text'')), (lit ''text'', PStr s)]"

text \<open>
  Identifiers: one that is the same for every message, and one that differs from
  message to message.
\<close>

definition reused_id :: "nat \<Rightarrow> pystr" where
  "reused_id k = lit ''run-1''"

definition numbered_id :: "nat \<Rightarrow> pystr" where
  "numbered_id k = lit ''msg-'' @ replicate k 35"

text \<open>A retriever that finds one document, whose text is empty.\<close>

definition blank_document_retriever :: "pyexc + retriever" where
  "blank_document_retriever = Inr (\<lambda>query. Inr [\<lparr>page_content = []\<rparr>])"

section \<open>Properties of the Python helpers\<close>

lemma py_strip_empty_iff: "py_strip t = [] \<longleftrightarrow> (\<forall>c\<in>set t. py_isspace c)"
proof
  assume "py_strip t = []"
  then have all: "\<forall>c\<in>set (dropWhile py_isspace t). py_isspace c"
    by (simp add: py_strip_def)
  have "dropWhile py_isspace t = []"
  proof (rule ccontr)
    assume ne: "dropWhile py_isspace t \<noteq> []"
    then have "\<not> py_isspace (hd (dropWhile py_isspace t))"
      by (rule hd_dropWhile)
    moreover from ne have "hd (dropWhile py_isspace t) \<in> set (dropWhile py_isspace t)"
      by (rule hd_in_set)
    ultimately show False using all by blast
  qed
  then show "\<forall>c\<in>set t. py_isspace c"
    by simp
next
  assume "\<forall>c\<in>set t. py_isspace c"
  then show "py_strip t = []"
    by (auto simp: py_strip_def dest: set_dropWhileD)
qed

lemma py_str_list_nonempty: "py_str_list repr xs \<noteq> []"
  by (simp add: py_str_list_def lit_def)

lemma hello_accepted: "lit ''hello'' \<noteq> [] \<and> py_strip (lit ''hello'') \<noteq> []"
  by (simp add: py_strip_empty_iff) (simp add: lit_def py_isspace_def)

lemma py_join_empty_iff:
  "sep \<noteq> [] \<Longrightarrow> py_join sep xs = [] \<longleftrightarrow> xs = [] \<or> xs = [[]]"
  by (induction sep xs rule: py_join.induct) auto

section \<open>Properties of the tools\<close>

lemma collect_info_nonempty:
  "collect_info rs acc = Inr info \<Longrightarrow> \<forall>x\<in>set acc. x \<noteq> [] \<Longrightarrow> \<forall>x\<in>set info. x \<noteq> []"
proof (induction rs acc rule: collect_info.induct)
  case (1 info)
  then show ?case by simp
next
  case (2 e repos info)
  then show ?case by simp
next
  case (3 r repos info)
  have "repo_line r \<noteq> []"
    by (simp add: repo_line_def Let_def lit_def)
  with 3 show ?case by simp
qed

lemma github_result_nonempty: "\<exists>s. check_github_activity g q = Inr s \<and> s \<noteq> []"
proof (cases "github_body g")
  case (Inl e)
  then show ?thesis
    by (simp add: check_github_activity_def try_except_def lit_def)
next
  case (Inr s)
  have "s \<noteq> []"
  proof (cases g)
    case (Inl e)
    then show ?thesis using Inr by (simp add: github_body_def)
  next
    case r: (Inr rs)
    show ?thesis
    proof (cases "collect_info (take 3 rs) []")
      case (Inl e)
      then show ?thesis using Inr r by (simp add: github_body_def)
    next
      case i: (Inr info)
      have ne: "\<forall>x\<in>set info. x \<noteq> []"
        using collect_info_nonempty[OF i] by simp
      show ?thesis
      proof (cases "info = []")
        case True
        then show ?thesis using Inr r i by (auto simp: github_body_def lit_def)
      next
        case False
        then have "info \<noteq> [[]]" using ne by auto
        then have "py_join [10] info \<noteq> []"
          using False by (simp add: py_join_empty_iff)
        then show ?thesis using Inr r i False by (auto simp: github_body_def)
      qed
    qed
  qed
  then show ?thesis using Inr
    by (simp add: check_github_activity_def try_except_def)
qed

lemma memory_result_empty_iff:
  "\<exists>s. check_my_memory r q = Inr s \<and>
       (s = [] \<longleftrightarrow> (\<exists>f d. r = Inr f \<and> f q = Inr [d] \<and> page_content d = []))"
proof (cases r)
  case (Inl e)
  then show ?thesis
    by (simp add: check_my_memory_def memory_body_def try_except_def lit_def)
next
  case (Inr f)
  show ?thesis
  proof (cases "f q")
    case (Inl e)
    then show ?thesis using Inr
      by (simp add: check_my_memory_def memory_body_def try_except_def lit_def)
  next
    case d: (Inr docs)
    show ?thesis
    proof (cases "docs = []")
      case True
      then show ?thesis using Inr d
        by (simp add: check_my_memory_def memory_body_def try_except_def lit_def)
    next
      case False
      have "py_join [10, 10] (map page_content docs) = [] \<longleftrightarrow> (\<exists>x. docs = [x] \<and> page_content x = [])"
        using False by (auto simp: py_join_empty_iff map_eq_Cons_conv)
      then show ?thesis using Inr d False
        by (simp add: check_my_memory_def memory_body_def try_except_def)
    qed
  qed
qed

section \<open>Properties of the graph\<close>

lemma should_continue_Goto: "should_continue st = Inr (Goto nd) \<Longrightarrow> nd = Tools"
  by (auto simp: should_continue_def split: sum.splits if_splits)

lemma should_continue_AI:
  "should_continue (apply_update st [AIMessage c tcs]) = Inr (if tcs \<noteq> [] then Goto Tools else END)"
  by (simp add: should_continue_def apply_update_def add_messages_def py_last_def)

lemma agent_step:
  assumes "l (messages st) = Inr (c, tcs)"
  shows "run_graph l tn (Suc n) Agent st =
     (if tcs \<noteq> [] then
        (case run_graph l tn n Tools (apply_update st [AIMessage c tcs]) of (res, k) \<Rightarrow> (res, Suc k))
      else (Inr (apply_update st [AIMessage c tcs]), 1))"
  using assms by (simp add: chatbot_node_def should_continue_AI)

lemma run_graph_always_tools:
  assumes L: "always_requests_tools l" and T: "never_raises tn"
  shows "run_graph l tn n nd st =
     (Inl GraphRecursionError, (n + (if nd = Agent then 1 else 0)) div 2)"
proof (induction n arbitrary: nd st)
  case 0
  then show ?case by simp
next
  case (Suc n)
  show ?case
  proof (cases nd)
    case Agent
    from L obtain c tcs where l: "l (messages st) = Inr (c, tcs)" and ne: "tcs \<noteq> []"
      unfolding always_requests_tools_def by blast
    show ?thesis
      using agent_step[of l st c tcs tn n] l ne Suc.IH[of Tools]
      by (simp add: Agent)
  next
    case Tools
    from T obtain upd where "tn (messages st) = Inr upd"
      unfolding never_raises_def by blast
    then show ?thesis
      using Suc.IH[of Agent] by (simp add: Tools)
  qed
qed

lemma run_graph_prefix:
  "fst (run_graph l tn n nd st) = Inr st' \<Longrightarrow> prefix (messages st) (messages st')"
proof (induction n arbitrary: nd st)
  case 0
  then show ?case by simp
next
  case (Suc n)
  show ?case
  proof (cases nd)
    case Agent
    show ?thesis
    proof (cases "l (messages st)")
      case (Inl e)
      then show ?thesis using Suc.prems by (simp add: Agent chatbot_node_def)
    next
      case (Inr r)
      obtain c tcs where r: "r = (c, tcs)" by (cases r)
      let ?st = "apply_update st [AIMessage c tcs]"
      have step: "prefix (messages st) (messages ?st)"
        by (simp add: apply_update_def add_messages_def)
      show ?thesis
      proof (cases "tcs = []")
        case True
        then show ?thesis
          using Suc.prems agent_step[of l st c tcs tn n] Inr r step by (simp add: Agent)
      next
        case False
        then have "fst (run_graph l tn n Tools ?st) = Inr st'"
          using Suc.prems agent_step[of l st c tcs tn n] Inr r
          by (simp add: Agent split: prod.splits)
        then have "prefix (messages ?st) (messages st')" by (rule Suc.IH)
        with step show ?thesis by (rule prefix_order.trans)
      qed
    qed
  next
    case Tools
    show ?thesis
    proof (cases "tn (messages st)")
      case (Inl e)
      then show ?thesis using Suc.prems by (simp add: Tools)
    next
      case (Inr upd)
      then have "fst (run_graph l tn n Agent (apply_update st upd)) = Inr st'"
        using Suc.prems by (simp add: Tools)
      then have "prefix (messages (apply_update st upd)) (messages st')" by (rule Suc.IH)
      moreover have "prefix (messages st) (messages (apply_update st upd))"
        by (simp add: apply_update_def add_messages_def)
      ultimately show ?thesis by (meson prefix_order.trans)
    qed
  qed
qed

lemma run_graph_cong:
  assumes "\<And>ms. prefix (messages st) ms \<Longrightarrow> l ms = l' ms"
    and "\<And>ms. prefix (messages st) ms \<Longrightarrow> tn ms = tn' ms"
  shows "run_graph l tn n nd st = run_graph l' tn' n nd st"
  using assms
proof (induction n arbitrary: nd st)
  case 0
  then show ?case by simp
next
  case (Suc n)
  have ext: "\<And>upd ms. prefix (messages (apply_update st upd)) ms \<Longrightarrow> prefix (messages st) ms"
    by (auto simp: apply_update_def add_messages_def dest: append_prefixD)
  have IH: "\<And>nd upd. run_graph l tn n nd (apply_update st upd) = run_graph l' tn' n nd (apply_update st upd)"
    by (rule Suc.IH) (auto dest!: ext intro: Suc.prems)
  have l: "l (messages st) = l' (messages st)" by (rule Suc.prems) simp
  have t: "tn (messages st) = tn' (messages st)" by (rule Suc.prems) simp
  show ?case
  proof (cases nd)
    case Agent
    then show ?thesis
      by (simp add: chatbot_node_def l IH Let_def split: sum.splits prod.splits edge_target.splits)
  next
    case Tools
    then show ?thesis
      by (simp add: t IH split: sum.splits)
  qed
qed

lemma bot_reply_total: "\<exists>v. fst (bot_reply l tn repr msgs) = Inr v"
  by (simp add: bot_reply_def try_except_def split: prod.splits sum.splits)

lemma run_graph_calls_le:
  "snd (run_graph l tn n nd st) \<le> (n + (if nd = Agent then 1 else 0)) div 2"
proof (induction n arbitrary: nd st)
  case 0
  then show ?case by simp
next
  case (Suc n)
  show ?case
  proof (cases nd)
    case Agent
    have tools: "\<And>s. snd (run_graph l tn n Tools s) \<le> n div 2"
      using Suc.IH[of Tools] by simp
    show ?thesis
    proof (cases "chatbot_node l st")
      case (Inl e)
      then show ?thesis by (simp add: Agent)
    next
      case (Inr upd)
      show ?thesis
      proof (cases "should_continue (apply_update st upd)")
        case (Inl e)
        then show ?thesis using Inr by (simp add: Agent)
      next
        case r: (Inr tgt)
        show ?thesis
        proof (cases tgt)
          case END
          then show ?thesis using Inr r by (simp add: Agent)
        next
          case (Goto nd')
          then show ?thesis
            using Inr r tools[of "apply_update st upd"]
              should_continue_Goto[of "apply_update st upd" nd']
            by (auto simp: Agent split: prod.splits)
        qed
      qed
    qed
  next
    case Tools
    then show ?thesis
      using Suc.IH[of Agent] by (simp split: sum.splits)
  qed
qed

lemma app_graph_invoke_initial:
  "app_graph_invoke l tn msgs n = run_graph l tn n Agent \<lparr>messages = msgs\<rparr>"
  by (simp add: app_graph_invoke_def apply_update_def add_messages_def)

lemma answering_llm_run:
  "0 < n \<Longrightarrow>
   run_graph (answering_llm c) tn n Agent st = (Inr (apply_update st [AIMessage c []]), 1)"
  using agent_step[of "answering_llm c" st c "[]" tn "n - 1"] by (simp add: answering_llm_def)

lemma failing_llm_run:
  "0 < n \<Longrightarrow> run_graph failing_llm tn n Agent st = (Inl quota_error, 1)"
  by (cases n) (simp_all add: chatbot_node_def failing_llm_def quota_error_def)

lemma final_answer_run:
  "0 < n \<Longrightarrow> l (messages st) = Inr (c, []) \<Longrightarrow>
   run_graph l tn n Agent st = (Inr (apply_update st [AIMessage c []]), 1)"
  using agent_step[of l st c "[]" tn "n - 1"] by simp

lemma handle_message_first_answer:
  assumes "t \<noteq> []" and "py_strip t \<noteq> []"
    and "l [SystemMessage (PStr sys), HumanMessage (PStr t)] = Inr (c, [])"
  shows "handle_message sys l tn repr (Some t) =
     \<lparr>bot_calls = [send_chat_action (lit ''typing''), send_message (extract_reply repr c)],
      escaped = None, model_invocations = 1\<rparr>"
proof -
  have "run_graph l tn recursion_limit Agent
          \<lparr>messages = [SystemMessage (PStr sys), HumanMessage (PStr t)]\<rparr> =
        (Inr (apply_update \<lparr>messages = [SystemMessage (PStr sys), HumanMessage (PStr t)]\<rparr>
                [AIMessage c []]), 1)"
    using assms(3) by (intro final_answer_run) (simp_all add: recursion_limit_def)
  then have "bot_reply l tn repr (initial_messages sys t) = (Inr (extract_reply repr c), 1)"
    by (simp add: bot_reply_def app_graph_invoke_initial initial_messages_def try_except_def
        reply_from_result_def py_last_def apply_update_def add_messages_def)
  then show ?thesis
    using assms(1,2) by (simp add: handle_message_def)
qed

lemma handle_message_cong:
  assumes "\<forall>ms. prefix [SystemMessage (PStr sys), HumanMessage (PStr t)] ms \<longrightarrow>
             l ms = l' ms \<and> tn ms = tn' ms"
  shows "handle_message sys l tn repr (Some t) = handle_message sys l' tn' repr (Some t)"
proof -
  have "run_graph l tn recursion_limit Agent \<lparr>messages = initial_messages sys t\<rparr> =
        run_graph l' tn' recursion_limit Agent \<lparr>messages = initial_messages sys t\<rparr>"
    using assms by (intro run_graph_cong) (simp_all add: initial_messages_def)
  then have "bot_reply l tn repr (initial_messages sys t) = bot_reply l' tn' repr (initial_messages sys t)"
    by (simp add: bot_reply_def app_graph_invoke_initial)
  then show ?thesis
    by (simp add: handle_message_def)
qed

section \<open>Properties of the reducer on identified messages\<close>

text \<open>With one identifier for every message the reducer replaces instead of appending.\<close>

lemma reused_id_replaces:
  "add_messages_by_id (assign_ids reused_id 0 [HumanMessage (PStr (lit ''hello''))])
     (assign_ids reused_id 1 [AIMessage (PStr (lit ''hi there'')) []]) =
   [(lit ''run-1'', AIMessage (PStr (lit ''hi there'')) [])]"
  by (simp add: add_messages_by_id_def assign_ids_def merge_message_def reused_id_def)

lemma inj_numbered_id: "inj numbered_id"
  by (auto simp: inj_def numbered_id_def dest: arg_cong[where f = length])

lemma assign_ids_fst: "map fst (assign_ids ident k ms) = map ident [k..<k + length ms]"
  by (simp add: assign_ids_def)

lemma assign_ids_snd: "map snd (assign_ids ident k ms) = ms"
  by (simp add: assign_ids_def)

lemma assign_ids_Cons:
  "assign_ids ident k (m # ms) = (ident k, m) # assign_ids ident (Suc k) ms"
  by (simp add: assign_ids_def upt_rec[of k] del: upt.simps)

lemma add_fresh:
  assumes "inj ident" and "set (map fst log) \<subseteq> ident ` {..<k}"
  shows "add_messages_by_id log (assign_ids ident k ms) = log @ assign_ids ident k ms"
  using assms(2)
proof (induction ms arbitrary: log k)
  case Nil
  then show ?case by (simp add: add_messages_by_id_def assign_ids_def)
next
  case (Cons m ms)
  have notin: "ident k \<notin> set (map fst log)"
  proof
    assume "ident k \<in> set (map fst log)"
    then obtain j where "j < k" "ident k = ident j" using Cons.prems by auto
    then show False using assms(1) by (auto dest: injD)
  qed
  have step: "merge_message log (ident k, m) = log @ [(ident k, m)]"
    using notin by (simp add: merge_message_def)
  have "set (map fst (log @ [(ident k, m)])) \<subseteq> ident ` {..<Suc k}"
    using Cons.prems by (auto simp: lessThan_Suc)
  then have "add_messages_by_id (log @ [(ident k, m)]) (assign_ids ident (Suc k) ms) =
      (log @ [(ident k, m)]) @ assign_ids ident (Suc k) ms"
    by (rule Cons.IH)
  then show ?case
    using step by (simp add: assign_ids_Cons add_messages_by_id_def)
qed

text \<open>
  With distinct identifiers the graph on identified messages only appends, and its
  outcomes are those of \<open>run_graph\<close> with the identifiers added.
\<close>

lemma run_graph_by_id_append_model:
  assumes inj: "inj ident"
  shows "set (map fst log) \<subseteq> ident ` {..<k} \<Longrightarrow>
     run_graph_by_id l tn ident n nd log k = Inr log' \<Longrightarrow>
     prefix log log' \<and> fst (run_graph l tn n nd \<lparr>messages = map snd log\<rparr>) = Inr \<lparr>messages = map snd log'\<rparr>"
proof (induction n arbitrary: nd log k)
  case 0
  then show ?case by simp
next
  case (Suc n)
  have grow: "\<And>upd. set (map fst (log @ assign_ids ident k upd)) \<subseteq> ident ` {..<k + length upd}"
    using Suc.prems(1) by (auto simp: assign_ids_fst)
  have upd_state: "\<And>upd. apply_update \<lparr>messages = map snd log\<rparr> upd =
      \<lparr>messages = map snd (log @ assign_ids ident k upd)\<rparr>"
    by (simp add: apply_update_def add_messages_def assign_ids_snd)
  show ?case
  proof (cases nd)
    case Agent
    show ?thesis
    proof (cases "chatbot_node l \<lparr>messages = map snd log\<rparr>")
      case (Inl e)
      then show ?thesis using Suc.prems(2) by (simp add: Agent)
    next
      case (Inr upd)
      let ?log = "log @ assign_ids ident k upd"
      have add: "add_messages_by_id log (assign_ids ident k upd) = ?log"
        using inj Suc.prems(1) by (rule add_fresh)
      show ?thesis
      proof (cases "should_continue \<lparr>messages = map snd ?log\<rparr>")
        case (Inl e)
        then show ?thesis using Suc.prems(2) Inr add by (simp add: Agent)
      next
        case r: (Inr tgt)
        show ?thesis
        proof (cases tgt)
          case END
          then have "log' = ?log"
            using Suc.prems(2) Inr add r by (simp add: Agent)
          then show ?thesis
            using Inr r END upd_state[of upd] by (simp add: Agent)
        next
          case (Goto nd')
          then have run: "run_graph_by_id l tn ident n nd' ?log (k + length upd) = Inr log'"
            using Suc.prems(2) Inr add r by (simp add: Agent)
          have IH: "prefix ?log log' \<and>
             fst (run_graph l tn n nd' \<lparr>messages = map snd ?log\<rparr>) = Inr \<lparr>messages = map snd log'\<rparr>"
            using grow[of upd] run by (rule Suc.IH)
          then have "prefix log log'"
            by (meson prefix_order.trans prefixI)
          then show ?thesis
            using IH Inr r Goto upd_state[of upd]
            by (simp add: Agent case_prod_unfold)
        qed
      qed
    qed
  next
    case Tools
    show ?thesis
    proof (cases "tn (map snd log)")
      case (Inl e)
      then show ?thesis using Suc.prems(2) by (simp add: Tools)
    next
      case (Inr upd)
      let ?log = "log @ assign_ids ident k upd"
      have add: "add_messages_by_id log (assign_ids ident k upd) = ?log"
        using inj Suc.prems(1) by (rule add_fresh)
      have run: "run_graph_by_id l tn ident n Agent ?log (k + length upd) = Inr log'"
        using Suc.prems(2) Inr add by (simp add: Tools)
      have IH: "prefix ?log log' \<and>
         fst (run_graph l tn n Agent \<lparr>messages = map snd ?log\<rparr>) = Inr \<lparr>messages = map snd log'\<rparr>"
        using grow[of upd] run by (rule Suc.IH)
      then have "prefix log log'"
        by (meson prefix_order.trans prefixI)
      then show ?thesis
        using IH Inr upd_state[of upd] by (simp add: Tools)
    qed
  qed
qed

lemma run_graph_by_id_payloads:
  assumes inj: "inj ident"
  shows "set (map fst log) \<subseteq> ident ` {..<k} \<Longrightarrow>
     map_sum (\<lambda>e. e) (map snd) (run_graph_by_id l tn ident n nd log k) =
     map_sum (\<lambda>e. e) messages (fst (run_graph l tn n nd \<lparr>messages = map snd log\<rparr>))"
proof (induction n arbitrary: nd log k)
  case 0
  then show ?case by simp
next
  case (Suc n)
  have grow: "\<And>upd. set (map fst (log @ assign_ids ident k upd)) \<subseteq> ident ` {..<k + length upd}"
    using Suc.prems by (auto simp: assign_ids_fst)
  have upd_state: "\<And>upd. apply_update \<lparr>messages = map snd log\<rparr> upd =
      \<lparr>messages = map snd (log @ assign_ids ident k upd)\<rparr>"
    by (simp add: apply_update_def add_messages_def assign_ids_snd)
  have add: "\<And>upd. add_messages_by_id log (assign_ids ident k upd) = log @ assign_ids ident k upd"
    using inj Suc.prems by (rule add_fresh)
  have IH: "\<And>nd upd. map_sum (\<lambda>e. e) (map snd)
        (run_graph_by_id l tn ident n nd (log @ assign_ids ident k upd) (k + length upd)) =
      map_sum (\<lambda>e. e) messages
        (fst (run_graph l tn n nd \<lparr>messages = map snd (log @ assign_ids ident k upd)\<rparr>))"
    using grow by (rule Suc.IH)
  show ?case
  proof (cases nd)
    case Agent
    show ?thesis
    proof (cases "chatbot_node l \<lparr>messages = map snd log\<rparr>")
      case (Inl e)
      then show ?thesis by (simp add: Agent)
    next
      case (Inr upd)
      show ?thesis
      proof (cases "should_continue \<lparr>messages = map snd (log @ assign_ids ident k upd)\<rparr>")
        case (Inl e)
        then show ?thesis using Inr add[of upd] upd_state[of upd] by (simp add: Agent)
      next
        case r: (Inr tgt)
        show ?thesis
        proof (cases tgt)
          case END
          then show ?thesis using Inr r add[of upd] upd_state[of upd] by (simp add: Agent)
        next
          case (Goto nd')
          then show ?thesis
            using Inr r add[of upd] upd_state[of upd] IH[of nd' upd]
            by (simp add: Agent case_prod_unfold Let_def)
        qed
      qed
    qed
  next
    case Tools
    show ?thesis
    proof (cases "tn (map snd log)")
      case (Inl e)
      then show ?thesis by (simp add: Tools)
    next
      case (Inr upd)
      then show ?thesis
        using add[of upd] upd_state[of upd] IH[of Agent upd] by (simp add: Tools)
    qed
  qed
qed

lemma answering_llm_run_by_id:
  "0 < n \<Longrightarrow> ident k \<notin> set (map fst log) \<Longrightarrow>
   run_graph_by_id (answering_llm c) tn ident n Agent log k = Inr (log @ [(ident k, AIMessage c [])])"
  by (cases n)
     (simp_all add: chatbot_node_def answering_llm_def add_messages_by_id_def assign_ids_def
        merge_message_def should_continue_def py_last_def)

lemma greeting_ids:
  "assign_ids numbered_id 0 greeting_log =
     [(numbered_id 0, SystemMessage (PStr short_prompt)),
      (numbered_id 1, HumanMessage (PStr (lit ''hello'')))]"
  by (simp add: assign_ids_def greeting_log_def initial_messages_def upt_rec numeral_2_eq_2)

section \<open>The tools never raise\<close>

text \<open>
  C3. For every query and every exception raised inside a tool call, in the memory
  search or in the GitHub lookup, the tool returns a text instead of raising:
  \<^verbatim>\<open>Error reading memory: \<close> followed by the text of the exception for the memory
  tool, \<^verbatim>\<open>Error connecting to GitHub: \<close> followed by it for the GitHub tool.
\<close>

theorem tool_exceptions_become_text:
  "(\<exists>s. check_my_memory r q = Inr s) \<and>
   (memory_body r q = Inl e \<longrightarrow>
      check_my_memory r q = Inr (lit ''Error reading memory: '' @ exc_str e)) \<and>
   (\<exists>s. check_github_activity g q' = Inr s) \<and>
   (github_body g = Inl e' \<longrightarrow>
      check_github_activity g q' = Inr (lit ''Error connecting to GitHub: '' @ exc_str e'))"
  by (simp add: check_my_memory_def check_github_activity_def try_except_def split: sum.splits)

text \<open>
  C3 on two backends: a retriever whose \<^verbatim>\<open>invoke\<close> times out, and a repository list
  whose second fetch times out.
\<close>

theorem tool_exceptions_become_text_witness:
  "memory_body failing_retriever (lit ''resume'') = Inl timeout_error \<and>
   check_my_memory failing_retriever (lit ''resume'') =
     Inr (lit ''Error reading memory: timed out'') \<and>
   github_body failing_github = Inl timeout_error \<and>
   check_github_activity failing_github (lit ''latest code'') =
     Inr (lit ''Error connecting to GitHub: timed out'')"
proof -
  have m: "memory_body failing_retriever (lit ''resume'') = Inl timeout_error"
    by (simp add: memory_body_def failing_retriever_def)
  have g: "github_body failing_github = Inl timeout_error"
    by (simp add: github_body_def failing_github_def)
  show ?thesis
    using m g tool_exceptions_become_text[where r = failing_retriever and q = "lit ''resume''"
        and e = timeout_error and g = failing_github and q' = "lit ''latest code''"
        and e' = timeout_error]
    by (simp add: timeout_error_def lit_def)
qed

text \<open>
  C10, as stated: for every query each tool returns a non-empty string. The memory tool
  does not when the retriever finds one document whose text is empty: the tool returns
  the join of the texts, the empty string.
\<close>

theorem empty_memory_text_counterexample:
  "check_my_memory blank_document_retriever (lit ''resume'') = Inr []"
  by (simp add: check_my_memory_def memory_body_def try_except_def blank_document_retriever_def)

text \<open>
  C10, amended: when its backend succeeds and finds nothing, a tool returns a fixed text
  that is not empty: the memory tool \<^verbatim>\<open>No specific personal memory found.\<close> when the
  retriever returns no document, the GitHub tool
  \<^verbatim>\<open>No recent public repositories found.\<close> when no repository is listed. For every
  query the GitHub tool returns a non-empty string, and the memory tool returns a
  string that is empty in one case only: the retriever returns exactly one document and
  its text is empty.
\<close>

theorem tool_results_nonempty:
  "(r = Inr f \<and> f q = Inr [] \<longrightarrow>
      check_my_memory r q = Inr (lit ''No specific personal memory found.'')) \<and>
   lit ''No specific personal memory found.'' \<noteq> [] \<and>
   (g = Inr [] \<longrightarrow>
      check_github_activity g q' = Inr (lit ''No recent public repositories found.'')) \<and>
   lit ''No recent public repositories found.'' \<noteq> [] \<and>
   (\<exists>s. check_github_activity g q' = Inr s \<and> s \<noteq> []) \<and>
   (\<exists>s. check_my_memory r q = Inr s \<and>
        (s = [] \<longleftrightarrow> (\<exists>f d. r = Inr f \<and> f q = Inr [d] \<and> page_content d = [])))"
proof -
  have a: "(r = Inr f \<and> f q = Inr [] \<longrightarrow>
      check_my_memory r q = Inr (lit ''No specific personal memory found.'')) \<and>
   lit ''No specific personal memory found.'' \<noteq> [] \<and>
   (g = Inr [] \<longrightarrow>
      check_github_activity g q' = Inr (lit ''No recent public repositories found.'')) \<and>
   lit ''No recent public repositories found.'' \<noteq> []"
    by (simp add: check_my_memory_def memory_body_def check_github_activity_def github_body_def
      try_except_def lit_def)
  show ?thesis
    using a github_result_nonempty[of g q'] memory_result_empty_iff[of r q] by blast
qed

text \<open>
  The amended C10 on a retriever that finds no document, on an empty repository list
  and on a list of one repository.
\<close>

theorem tool_results_nonempty_witness:
  "check_my_memory empty_retriever (lit ''resume'') =
     Inr (lit ''No specific personal memory found.'') \<and>
   check_github_activity (Inr []) (lit ''latest code'') =
     Inr (lit ''No recent public repositories found.'') \<and>
   check_github_activity (Inr [Inr some_repo]) (lit ''latest code'') =
     Inr (lit ''Repo: PooyaBot | URL: https://github.com/PooyaNasiri/PooyaBot | Desc: No description'')"
proof -
  have g: "check_github_activity (Inr [Inr some_repo]) (lit ''latest code'') =
     Inr (lit ''Repo: PooyaBot | URL: https://github.com/PooyaNasiri/PooyaBot | Desc: No description'')"
    by (simp add: check_github_activity_def github_body_def try_except_def some_repo_def
        repo_line_def lit_def)
  show ?thesis
    using g tool_results_nonempty[where r = empty_retriever and f = "\<lambda>query. Inr []"
      and q = "lit ''resume''" and g = "Inr []" and q' = "lit ''latest code''"]
    by (simp add: empty_retriever_def)
qed

section \<open>The steps of the graph\<close>



text \<open>
  C9. A turn starts from the log that holds exactly the system prompt followed by the
  user message, with nothing of earlier turns: the handler replies with what the model
  answers on that log, and it consults the model and the tool node only on logs that
  extend it. The log only grows: the log of every result of the graph extends the log
  the run started from; and with the library's reducer, which merges by identifier, a
  run whose messages have distinct identifiers keeps every logged message, identifier
  and content, at its place, and has the outcomes of the run that appends.
\<close>

theorem log_starts_fresh_and_only_grows:
  "(t \<noteq> [] \<and> py_strip t \<noteq> [] \<and>
    l [SystemMessage (PStr sys), HumanMessage (PStr t)] = Inr (c, []) \<longrightarrow>
      handle_message sys l tn repr (Some t) =
        \<lparr>bot_calls = [send_chat_action (lit ''typing''), send_message (extract_reply repr c)],
         escaped = None, model_invocations = 1\<rparr>) \<and>
   ((\<forall>ms. prefix [SystemMessage (PStr sys), HumanMessage (PStr t)] ms \<longrightarrow>
           l ms = l' ms \<and> tn ms = tn' ms) \<longrightarrow>
      handle_message sys l tn repr (Some t) = handle_message sys l' tn' repr (Some t)) \<and>
   (fst (run_graph l tn n nd st) = Inr st' \<longrightarrow> prefix (messages st) (messages st')) \<and>
   (inj ident \<and> set (map fst log) \<subseteq> ident ` {..<k} \<longrightarrow>
      map_sum (\<lambda>e. e) (map snd) (run_graph_by_id l tn ident n nd log k) =
        map_sum (\<lambda>e. e) messages (fst (run_graph l tn n nd \<lparr>messages = map snd log\<rparr>)) \<and>
      (run_graph_by_id l tn ident n nd log k = Inr log' \<longrightarrow> prefix log log'))"
proof -
  have a: "t \<noteq> [] \<and> py_strip t \<noteq> [] \<and>
    l [SystemMessage (PStr sys), HumanMessage (PStr t)] = Inr (c, []) \<longrightarrow>
      handle_message sys l tn repr (Some t) =
        \<lparr>bot_calls = [send_chat_action (lit ''typing''), send_message (extract_reply repr c)],
         escaped = None, model_invocations = 1\<rparr>"
    using handle_message_first_answer[of t l sys c tn repr] by blast
  have b: "(\<forall>ms. prefix [SystemMessage (PStr sys), HumanMessage (PStr t)] ms \<longrightarrow>
           l ms = l' ms \<and> tn ms = tn' ms) \<longrightarrow>
      handle_message sys l tn repr (Some t) = handle_message sys l' tn' repr (Some t)"
    using handle_message_cong[of sys t l l' tn tn' repr] by blast
  have c: "fst (run_graph l tn n nd st) = Inr st' \<longrightarrow> prefix (messages st) (messages st')"
    using run_graph_prefix[of l tn n nd st st'] by blast
  have d: "inj ident \<and> set (map fst log) \<subseteq> ident ` {..<k} \<longrightarrow>
      map_sum (\<lambda>e. e) (map snd) (run_graph_by_id l tn ident n nd log k) =
        map_sum (\<lambda>e. e) messages (fst (run_graph l tn n nd \<lparr>messages = map snd log\<rparr>)) \<and>
      (run_graph_by_id l tn ident n nd log k = Inr log' \<longrightarrow> prefix log log')"
    using run_graph_by_id_payloads[of ident log k l tn n nd]
      run_graph_by_id_append_model[of ident log k l tn n nd log'] by blast
  show ?thesis
    using a b c d by blast
qed

text \<open>
  C9 on the greeting turn: the reply is the model's answer on the initial log, a model
  that differs from the answering model only on logs of other turns gives the same
  turn, and the final log extends the initial one, with and without identifiers.
\<close>

theorem log_starts_fresh_and_only_grows_witness:
  "handle_message short_prompt (answering_llm (PStr (lit ''hi there''))) answering_tool_node
       repr_plain (Some (lit ''hello'')) =
     \<lparr>bot_calls = [send_chat_action (lit ''typing''), send_message (PStr (lit ''hi there''))],
      escaped = None, model_invocations = 1\<rparr> \<and>
   handle_message short_prompt (answering_llm (PStr (lit ''hi there''))) answering_tool_node
       repr_plain (Some (lit ''hello'')) =
     handle_message short_prompt greeting_only_llm answering_tool_node
       repr_plain (Some (lit ''hello'')) \<and>
   prefix greeting_log (greeting_log @ [AIMessage (PStr (lit ''hi there'')) []]) \<and>
   inj numbered_id \<and>
   run_graph_by_id (answering_llm (PStr (lit ''hi there''))) answering_tool_node numbered_id 10
       Agent (assign_ids numbered_id 0 greeting_log) 2 =
     Inr (assign_ids numbered_id 0 greeting_log @
          [(numbered_id 2, AIMessage (PStr (lit ''hi there'')) [])]) \<and>
   prefix (assign_ids numbered_id 0 greeting_log)
     (assign_ids numbered_id 0 greeting_log @
        [(numbered_id 2, AIMessage (PStr (lit ''hi there'')) [])])"
proof -
  let ?l = "answering_llm (PStr (lit ''hi there''))"
  let ?st = "\<lparr>messages = greeting_log\<rparr>"
  let ?st' = "\<lparr>messages = greeting_log @ [AIMessage (PStr (lit ''hi there'')) []]\<rparr>"
  let ?log = "assign_ids numbered_id 0 greeting_log"
  let ?log' = "?log @ [(numbered_id 2, AIMessage (PStr (lit ''hi there'')) [])]"
  have first: "?l [SystemMessage (PStr short_prompt), HumanMessage (PStr (lit ''hello''))] =
      Inr (PStr (lit ''hi there''), [])"
    by (simp add: answering_llm_def)
  have same: "\<forall>ms. prefix [SystemMessage (PStr short_prompt), HumanMessage (PStr (lit ''hello''))] ms \<longrightarrow>
      ?l ms = greeting_only_llm ms \<and> answering_tool_node ms = answering_tool_node ms"
    by (simp add: answering_llm_def greeting_only_llm_def greeting_log_def initial_messages_def)
  have run: "fst (run_graph ?l answering_tool_node 10 Agent ?st) = Inr ?st'"
    by (simp add: answering_llm_run apply_update_def add_messages_def)
  have ids: "set (map fst ?log) \<subseteq> numbered_id ` {..<2}"
    by (auto simp: greeting_ids lessThan_Suc numeral_2_eq_2)
  have fresh: "numbered_id 2 \<notin> set (map fst ?log)"
    by (simp add: greeting_ids numbered_id_def numeral_2_eq_2)
  have run_id: "run_graph_by_id ?l answering_tool_node numbered_id 10 Agent ?log 2 = Inr ?log'"
    using fresh by (simp add: answering_llm_run_by_id)
  have ex: "extract_reply repr_plain (PStr (lit ''hi there'')) = PStr (lit ''hi there'')"
    by (simp add: extract_reply_def)
  note inst = log_starts_fresh_and_only_grows[where t = "lit ''hello''" and l = ?l
      and sys = short_prompt and c = "PStr (lit ''hi there'')" and tn = answering_tool_node
      and repr = repr_plain and l' = greeting_only_llm and tn' = answering_tool_node
      and n = 10 and nd = Agent and st = ?st and st' = ?st' and ident = numbered_id
      and log = ?log and k = 2 and log' = ?log']
  have A: "handle_message short_prompt ?l answering_tool_node repr_plain (Some (lit ''hello'')) =
     \<lparr>bot_calls = [send_chat_action (lit ''typing''), send_message (PStr (lit ''hi there''))],
      escaped = None, model_invocations = 1\<rparr>"
    using inst hello_accepted first ex by metis
  have B: "handle_message short_prompt ?l answering_tool_node repr_plain (Some (lit ''hello'')) =
     handle_message short_prompt greeting_only_llm answering_tool_node repr_plain (Some (lit ''hello''))"
    using inst same by blast
  have C: "prefix greeting_log (greeting_log @ [AIMessage (PStr (lit ''hi there'')) []])"
    using inst run by simp
  have D: "prefix ?log ?log'"
    using inst inj_numbered_id ids run_id by blast
  show ?thesis
    using A B C D inj_numbered_id run_id by simp
qed

section \<open>The recursion limit\<close>

text \<open>
  C2, as stated: a turn whose model always requests further tool calls ends after as
  many model invocations as the recursion limit, 10. It does not: the steps of the
  tool node count against the limit as well, so such a turn invokes the model 5 times.
\<close>

theorem recursion_limit_counterexample:
  "snd (bot_reply tool_requesting_llm answering_tool_node repr_plain
          (initial_messages short_prompt (lit ''hello''))) = 5
   \<and> recursion_limit = 10"
proof -
  have L: "always_requests_tools tool_requesting_llm"
    by (simp add: always_requests_tools_def tool_requesting_llm_def)
  have T: "never_raises answering_tool_node"
    by (simp add: never_raises_def answering_tool_node_def)
  show ?thesis
    by (simp add: bot_reply_def app_graph_invoke_initial run_graph_always_tools[OF L T]
        recursion_limit_def split: prod.splits)
qed

text \<open>
  C2, amended: in every turn the number of model invocations is at most the recursion
  limit 10; and a turn whose model always requests further tool calls, the tool node
  returning each time, invokes the model exactly 5 times, then stops on the recursion
  limit and replies with the fixed apology text, no exception leaving the handler.
  With a limit of \<open>n\<close> steps such a run invokes the model \<open>(n + 1) div 2\<close> times.
\<close>

theorem recursion_limit_bounds_turn:
  "snd (bot_reply l tn repr msgs) \<le> recursion_limit \<and>
   (always_requests_tools l \<and> never_raises tn \<longrightarrow>
      bot_reply l tn repr msgs = (Inr (PStr apology), 5) \<and>
      (\<forall>n. run_graph l tn n Agent \<lparr>messages = msgs\<rparr> =
             (Inl GraphRecursionError, (n + 1) div 2)))"
proof
  have "snd (run_graph l tn recursion_limit Agent \<lparr>messages = msgs\<rparr>) \<le> (recursion_limit + 1) div 2"
    using run_graph_calls_le[of l tn recursion_limit Agent] by simp
  then show "snd (bot_reply l tn repr msgs) \<le> recursion_limit"
    by (simp add: bot_reply_def app_graph_invoke_initial recursion_limit_def case_prod_unfold)
next
  show "always_requests_tools l \<and> never_raises tn \<longrightarrow>
      bot_reply l tn repr msgs = (Inr (PStr apology), 5) \<and>
      (\<forall>n. run_graph l tn n Agent \<lparr>messages = msgs\<rparr> =
             (Inl GraphRecursionError, (n + 1) div 2))"
    by (simp add: bot_reply_def app_graph_invoke_initial run_graph_always_tools
        recursion_limit_def try_except_def)
qed

text \<open>The amended C2 on a run: the model that requests the memory tool on every invocation.\<close>

theorem recursion_limit_bounds_turn_witness:
  "always_requests_tools tool_requesting_llm \<and> never_raises answering_tool_node \<and>
   bot_reply tool_requesting_llm answering_tool_node repr_plain
     (initial_messages short_prompt (lit ''hello''))
     = (Inr (PStr apology), 5)"
proof -
  have L: "always_requests_tools tool_requesting_llm"
    by (simp add: always_requests_tools_def tool_requesting_llm_def)
  have T: "never_raises answering_tool_node"
    by (simp add: never_raises_def answering_tool_node_def)
  show ?thesis
    using L T recursion_limit_bounds_turn[of tool_requesting_llm answering_tool_node repr_plain
        "initial_messages short_prompt (lit ''hello'')"]
    by simp
qed

section \<open>The reply of a turn\<close>

text \<open>
  C4, as stated: a list of segments yields its first textual segment, and the fixed
  fallback text when it has none. It does not: the extraction looks at the first
  segment only. On a thinking segment followed by the text segment \<^verbatim>\<open>hello\<close> the
  reply is the rendering of the whole list, not \<^verbatim>\<open>hello\<close>; on a thinking segment
  alone it is the rendering of the list, not the fallback text.
\<close>

theorem extraction_counterexample:
  "extract_reply repr_plain (PList [thinking_segment, text_segment (lit ''hello'')]) =
     PStr (lit ''[{'type': 'thinking', 'thinking': 'Let me see'}, {'type': 'text', 'text': 'hello'}]'') \<and>
   extract_reply repr_plain (PList [thinking_segment, text_segment (lit ''hello'')]) \<noteq>
     PStr (lit ''hello'') \<and>
   extract_reply repr_plain (PList [thinking_segment]) =
     PStr (lit ''[{'type': 'thinking', 'thinking': 'Let me see'}]'') \<and>
   extract_reply repr_plain (PList [thinking_segment]) \<noteq> PStr no_text_fallback"
  by (simp add: extract_reply_def py_str_list_def thinking_segment_def text_segment_def
      no_text_fallback_def lit_def)

text \<open>
  C4, amended: the extraction is a function of the content of the last message, by its
  shape. A string is returned as it is. A non-empty list whose first segment is a dict
  with the key \<^verbatim>\<open>text\<close> yields the value at that key. A non-empty list whose first
  segment is anything else yields the rendering of the whole list as a string, which is
  not empty. Every other content, the empty list among them, yields the fixed fallback
  text, which is not empty.
\<close>

theorem extraction_by_shape:
  "extract_reply repr (PStr s) = PStr s \<and>
   (map_of d (lit ''text'') = Some t \<longrightarrow> extract_reply repr (PList (PDict d # xs)) = t) \<and>
   ((\<forall>d'. x = PDict d' \<longrightarrow> map_of d' (lit ''text'') = None) \<longrightarrow>
      extract_reply repr (PList (x # xs)) = PStr (py_str_list repr (x # xs)) \<and>
      py_str_list repr (x # xs) \<noteq> []) \<and>
   extract_reply repr (PList []) = PStr no_text_fallback \<and>
   extract_reply repr PNone = PStr no_text_fallback \<and>
   extract_reply repr (PDict d) = PStr no_text_fallback \<and>
   no_text_fallback \<noteq> []"
proof -
  have a: "(\<forall>d'. x = PDict d' \<longrightarrow> map_of d' (lit ''text'') = None) \<longrightarrow>
      extract_reply repr (PList (x # xs)) = PStr (py_str_list repr (x # xs))"
    by (cases x) (simp_all add: extract_reply_def)
  have b: "no_text_fallback \<noteq> []"
    by (simp add: no_text_fallback_def lit_def)
  show ?thesis
    using a b py_str_list_nonempty[of repr "x # xs"] by (simp add: extract_reply_def)
qed

text \<open>
  The amended C4 on a list that starts with a text segment, and on a list that starts
  with a plain string.
\<close>

theorem extraction_by_shape_witness:
  "map_of [(lit ''type'', PStr (lit ''text'')), (lit ''text'', PStr (lit ''hello''))] (lit ''text'')
     = Some (PStr (lit ''hello'')) \<and>
   extract_reply repr_plain (PList [text_segment (lit ''hello''), thinking_segment]) = PStr (lit ''hello'') \<and>
   extract_reply repr_plain (PList [PStr (lit ''hello''), thinking_segment]) =
     PStr (py_str_list repr_plain [PStr (lit ''hello''), thinking_segment])"
proof -
  have m: "map_of [(lit ''type'', PStr (lit ''text'')), (lit ''text'', PStr (lit ''hello''))] (lit ''text'')
     = Some (PStr (lit ''hello''))"
    by (simp add: lit_def)
  show ?thesis
    using m extraction_by_shape[of repr_plain "[]"
        "[(lit ''type'', PStr (lit ''text'')), (lit ''text'', PStr (lit ''hello''))]"
        "PStr (lit ''hello'')" "[thinking_segment]" "PStr (lit ''hello'')"]
    by (simp add: text_segment_def)
qed

text \<open>
  C5. The extraction is determined by the content of the last message: two results
  whose last messages have the same content give the same reply, whatever else differs;
  and extracting again from an extracted text gives that text.
\<close>

theorem extraction_depends_on_content_only:
  "(content m = content m' \<longrightarrow>
      reply_from_result repr \<lparr>messages = ms @ [m]\<rparr> = reply_from_result repr \<lparr>messages = ms' @ [m']\<rparr>) \<and>
   (extract_reply repr c = PStr s \<longrightarrow>
      extract_reply repr (extract_reply repr c) = extract_reply repr c)"
  by (simp add: reply_from_result_def py_last_def extract_reply_def)

text \<open>
  C5 on an assistant message and a tool message with the same content, in different
  logs.
\<close>

theorem extraction_depends_on_content_only_witness:
  "content (AIMessage (PList [text_segment (lit ''hello'')]) []) =
     content (ToolMessage (PList [text_segment (lit ''hello'')]) (lit ''call_1'')) \<and>
   reply_from_result repr_plain \<lparr>messages = [AIMessage (PList [text_segment (lit ''hello'')]) []]\<rparr> =
   reply_from_result repr_plain
     \<lparr>messages = [HumanMessage (PStr (lit ''hi'')),
                  ToolMessage (PList [text_segment (lit ''hello'')]) (lit ''call_1'')]\<rparr> \<and>
   extract_reply repr_plain (PList [text_segment (lit ''hello'')]) = PStr (lit ''hello'') \<and>
   extract_reply repr_plain (extract_reply repr_plain (PList [text_segment (lit ''hello'')])) =
     extract_reply repr_plain (PList [text_segment (lit ''hello'')])"
proof -
  have e: "extract_reply repr_plain (PList [text_segment (lit ''hello'')]) = PStr (lit ''hello'')"
    by (simp add: extract_reply_def text_segment_def lit_def)
  show ?thesis
    using e extraction_depends_on_content_only[of
        "AIMessage (PList [text_segment (lit ''hello'')]) []"
        "ToolMessage (PList [text_segment (lit ''hello'')]) (lit ''call_1'')"
        repr_plain "[]" "[HumanMessage (PStr (lit ''hi''))]"
        "PList [text_segment (lit ''hello'')]" "lit ''hello''"]
    by simp
qed

text \<open>
  C6. If the invocation of the graph raises, whatever the exception, the reply of the
  turn is the fixed apology text: the handler sends the typing action and then the
  apology, and no exception leaves it.
\<close>

theorem failed_invocation_gives_apology:
  assumes "t \<noteq> []" and "py_strip t \<noteq> []"
    and "fst (app_graph_invoke l tn (initial_messages sys t) recursion_limit) = Inl e"
  shows "fst (bot_reply l tn repr (initial_messages sys t)) = Inr (PStr apology) \<and>
         bot_calls (handle_message sys l tn repr (Some t)) =
           [send_chat_action (lit ''typing''), send_message (PStr apology)] \<and>
         escaped (handle_message sys l tn repr (Some t)) = None"
proof -
  obtain k where "app_graph_invoke l tn (initial_messages sys t) recursion_limit = (Inl e, k)"
    using assms(3) by (cases "app_graph_invoke l tn (initial_messages sys t) recursion_limit") simp
  then have "bot_reply l tn repr (initial_messages sys t) = (Inr (PStr apology), k)"
    by (simp add: bot_reply_def try_except_def)
  then show ?thesis
    using assms(1,2) by (simp add: handle_message_def)
qed

text \<open>C6 on the user text \<^verbatim>\<open>hello\<close> and a model whose invocation raises.\<close>

theorem failed_invocation_gives_apology_witness:
  "lit ''hello'' \<noteq> [] \<and> py_strip (lit ''hello'') \<noteq> [] \<and>
   fst (app_graph_invoke failing_llm answering_tool_node greeting_log recursion_limit) = Inl quota_error \<and>
   bot_calls (handle_message short_prompt
       failing_llm answering_tool_node repr_plain (Some (lit ''hello''))) =
     [send_chat_action (lit ''typing''), send_message (PStr apology)]"
proof -
  have r: "fst (app_graph_invoke failing_llm answering_tool_node
       (initial_messages short_prompt (lit ''hello''))
       recursion_limit) = Inl quota_error"
    by (simp add: app_graph_invoke_initial failing_llm_run recursion_limit_def)
  show ?thesis
    using hello_accepted r
      failed_invocation_gives_apology[of "lit ''hello'' " failing_llm answering_tool_node
        short_prompt quota_error repr_plain]
    by (simp add: greeting_log_def)
qed

text \<open>
  C1. For every non-empty, non-whitespace user text one turn should produce a non-empty
  reply string. The handler does not: on the user text \<^verbatim>\<open>hello\<close>, with a model whose
  final message has the empty string as content and no tool calls, the handler invokes
  the model once and then calls \<^verbatim>\<open>send_message\<close> with the empty text.
\<close>

theorem handle_message_empty_reply:
  "handle_message short_prompt
     (answering_llm (PStr [])) answering_tool_node repr_plain (Some (lit ''hello''))
   = \<lparr>bot_calls = [send_chat_action (lit ''typing''), send_message (PStr [])],
      escaped = None, model_invocations = 1\<rparr>"
  by (simp add: handle_message_def hello_accepted bot_reply_def app_graph_invoke_initial
      recursion_limit_def answering_llm_run reply_from_result_def try_except_def py_last_def
      extract_reply_def apply_update_def add_messages_def initial_messages_def)

section \<open>Blank user text\<close>

text \<open>
  C7. A user text that is empty or consists of whitespace only is rejected before the
  graph runs: the model is not invoked, and the only call on the bot sends the prompt
  \<^verbatim>\<open>Please send a valid text message.\<close>
\<close>

theorem blank_text_is_rejected:
  assumes "\<forall>c\<in>set t. py_isspace c"
  shows "handle_message sys l tn repr (Some t) =
     \<lparr>bot_calls = [send_message (PStr (lit ''Please send a valid text message.''))],
      escaped = None, model_invocations = 0\<rparr>"
  using assms by (simp add: handle_message_def py_strip_empty_iff)

text \<open>
  C7 on the text made of a space, a tab, a line feed and an ideographic space, and on
  the empty text.
\<close>

theorem blank_text_is_rejected_witness:
  "py_isspace 32 \<and> py_isspace 9 \<and> py_isspace 10 \<and> py_isspace 12288 \<and>
   handle_message short_prompt
     (answering_llm (PStr (lit ''hi there''))) answering_tool_node repr_plain (Some [32, 9, 10, 12288]) =
     \<lparr>bot_calls = [send_message (PStr (lit ''Please send a valid text message.''))],
      escaped = None, model_invocations = 0\<rparr> \<and>
   handle_message short_prompt
     (answering_llm (PStr (lit ''hi there''))) answering_tool_node repr_plain (Some []) =
     \<lparr>bot_calls = [send_message (PStr (lit ''Please send a valid text message.''))],
      escaped = None, model_invocations = 0\<rparr>"
proof -
  have s: "py_isspace 32 \<and> py_isspace 9 \<and> py_isspace 10 \<and> py_isspace 12288"
    by (simp add: py_isspace_def)
  then have a: "\<forall>c\<in>set [32, 9, 10, 12288]. py_isspace c"
    by simp
  have b: "\<forall>c\<in>set []. py_isspace c"
    by simp
  show ?thesis
    using s blank_text_is_rejected[OF a] blank_text_is_rejected[OF b] by simp
qed

end
